theory Spec2Isabelle
  imports Complex_Main
begin

section \<open>The Flappy-Square environment (flappy\_env.py)\<close>

text \<open>
  The model follows \<^verbatim>\<open>flappy_env.py\<close>. Python integers are \<^typ>\<open>int\<close>. Python
  floats are modelled as exact rationals (\<^typ>\<open>rat\<close>): the rounding of IEEE doubles and
  the final conversion of the observation to float32 are not part of the model, so every
  statement below is about the exact values of the formulas the code evaluates.
\<close>

subsection \<open>Constants\<close>

definition WIDTH :: int where "WIDTH = 480"
definition HEIGHT :: int where "HEIGHT = 640"
definition GRAVITY :: rat where "GRAVITY = 35 / 100"
definition FLAP_STRENGTH :: rat where "FLAP_STRENGTH = - (75 / 10)"
definition PIPE_INTERVAL_TICKS :: int where "PIPE_INTERVAL_TICKS = 90"
definition PIPE_SPEED_START :: rat where "PIPE_SPEED_START = 3"
definition GAP_START :: int where "GAP_START = 170"
definition GAP_MIN :: int where "GAP_MIN = 100"
definition GAP_DEC :: int where "GAP_DEC = 4"
definition SQUARE_SIZE :: int where "SQUARE_SIZE = 38"

subsection \<open>Errors and the module-level random generator\<close>

text \<open>
  \<^verbatim>\<open>ValueError\<close> is what \<^verbatim>\<open>random.randint(a, b)\<close> raises on an empty range.
  \<^verbatim>\<open>InvalidStateError\<close> is the error kind the specification names for a step taken
  after termination; no statement of the source raises it.
\<close>

datatype error = ValueError | InvalidStateError

text \<open>
  The state of Python's module-level generator \<^verbatim>\<open>random\<close> is taken as a parameter:
  it is the stream of raw numbers the generator is going to produce. \<^verbatim>\<open>randint(a, b)\<close>
  consumes the next raw number and reduces it into the closed range \<open>[a, b]\<close>.
\<close>

type_synonym rng = "nat \<Rightarrow> nat"

definition randint :: "int \<Rightarrow> int \<Rightarrow> rng \<Rightarrow> error + (int \<times> rng)" where
  "randint a b g =
     (if b < a then Inl ValueError
      else Inr (a + int (g 0 mod nat (b - a + 1)), (\<lambda>n. g (Suc n))))"

definition const_rng :: "nat \<Rightarrow> rng" where
  "const_rng k = (\<lambda>n. k)"

subsection \<open>Rectangles (pygame.Rect)\<close>

record rect =
  rect_x :: int
  rect_y :: int
  rect_w :: int
  rect_h :: int

text \<open>Python's \<^verbatim>\<open>int(f)\<close> and pygame's conversion of a float coordinate truncate toward zero.\<close>

definition py_int :: "rat \<Rightarrow> int" where
  "py_int q = (if 0 \<le> q then \<lfloor>q\<rfloor> else \<lceil>q\<rceil>)"

text \<open>
  \<^verbatim>\<open>Rect.colliderect\<close> of pygame: rectangles of zero width or height collide with
  nothing; otherwise the open overlap test on both axes.
\<close>

definition colliderect :: "rect \<Rightarrow> rect \<Rightarrow> bool" where
  "colliderect A B =
     (if rect_w A = 0 \<or> rect_h A = 0 \<or> rect_w B = 0 \<or> rect_h B = 0 then False
      else min (rect_x A) (rect_x A + rect_w A) < max (rect_x B) (rect_x B + rect_w B)
         \<and> min (rect_y A) (rect_y A + rect_h A) < max (rect_y B) (rect_y B + rect_h B)
         \<and> max (rect_x A) (rect_x A + rect_w A) > min (rect_x B) (rect_x B + rect_w B)
         \<and> max (rect_y A) (rect_y A + rect_h A) > min (rect_y B) (rect_y B + rect_h B))"

subsection \<open>The square (class \_Square)\<close>

record square =
  square_y :: rat
  square_vel :: rat

definition new_Square :: square where
  "new_Square = \<lparr>square_y = of_int HEIGHT / 2, square_vel = 0\<rparr>"

definition Square_flap :: "square \<Rightarrow> square" where
  "Square_flap s = s\<lparr>square_vel := FLAP_STRENGTH\<rparr>"

definition Square_update :: "square \<Rightarrow> square" where
  "Square_update s =
     (let v = square_vel s + GRAVITY in s\<lparr>square_vel := v, square_y := square_y s + v\<rparr>)"

definition Square_rect :: "square \<Rightarrow> rect" where
  "Square_rect s =
     \<lparr>rect_x = WIDTH div 4, rect_y = py_int (square_y s),
      rect_w = SQUARE_SIZE, rect_h = SQUARE_SIZE\<rparr>"

subsection \<open>Pipes (class \_Pipe)\<close>

record pipe =
  pipe_x :: rat
  pipe_w :: int
  pipe_gap_y :: int
  pipe_gap_h :: int
  passed :: bool

definition new_Pipe :: "rat \<Rightarrow> int \<Rightarrow> int \<Rightarrow> pipe" where
  "new_Pipe x gy gh =
     \<lparr>pipe_x = x, pipe_w = 60, pipe_gap_y = gy, pipe_gap_h = gh, passed = False\<rparr>"

definition Pipe_update :: "pipe \<Rightarrow> rat \<Rightarrow> pipe" where
  "Pipe_update p speed = p\<lparr>pipe_x := pipe_x p - speed\<rparr>"

definition Pipe_rects :: "pipe \<Rightarrow> rect list" where
  "Pipe_rects p =
     [\<lparr>rect_x = py_int (pipe_x p), rect_y = 0, rect_w = pipe_w p, rect_h = pipe_gap_y p\<rparr>,
      \<lparr>rect_x = py_int (pipe_x p), rect_y = pipe_gap_y p + pipe_gap_h p, rect_w = pipe_w p,
       rect_h = HEIGHT - (pipe_gap_y p + pipe_gap_h p)\<rparr>]"

definition Pipe_off_screen :: "pipe \<Rightarrow> bool" where
  "Pipe_off_screen p = (pipe_x p + of_int (pipe_w p) < 0)"

subsection \<open>The environment (class FlappyEnv)\<close>

text \<open>
  \<open>np_random\<close> stands for the generator gymnasium keeps in the environment object:
  \<^verbatim>\<open>super().reset(seed=seed)\<close> re-seeds it when a seed is given and leaves it alone
  otherwise. It is recorded as the seed it was last given.
\<close>

record env =
  square :: square
  pipes :: "pipe list"
  tick :: int
  pipe_speed :: rat
  gap_h :: int
  score :: int
  np_random :: "int option"

text \<open>
  \<^verbatim>\<open>min((p for p in pipes if p.x + p.w >= WIDTH // 4), default=None, key=lambda p: p.x)\<close>:
  the first pipe of least \<open>x\<close> among the candidates, \<open>None\<close> when there is none.
\<close>

fun min_by_x :: "pipe \<Rightarrow> pipe list \<Rightarrow> pipe" where
  "min_by_x b [] = b"
| "min_by_x b (p # ps) = min_by_x (if pipe_x p < pipe_x b then p else b) ps"

definition upcoming :: "pipe \<Rightarrow> bool" where
  "upcoming p = (pipe_x p + of_int (pipe_w p) \<ge> of_int (WIDTH div 4))"

definition next_pipe :: "pipe list \<Rightarrow> pipe option" where
  "next_pipe ps = (case filter upcoming ps of [] \<Rightarrow> None | p # qs \<Rightarrow> Some (min_by_x p qs))"

definition gap_centre :: "pipe \<Rightarrow> rat" where
  "gap_centre p = of_int (pipe_gap_y p) + of_int (pipe_gap_h p) / 2"

definition get_obs :: "env \<Rightarrow> rat list" where
  "get_obs e =
     (case next_pipe (pipes e) of
        None \<Rightarrow>
          [0 / (of_int HEIGHT / 2),
           of_int WIDTH / of_int WIDTH,
           square_vel (square e) / 10,
           of_int (gap_h e - GAP_MIN) / of_int (GAP_START - GAP_MIN)]
      | Some p \<Rightarrow>
          [(square_y (square e) - gap_centre p) / (of_int HEIGHT / 2),
           (pipe_x p + of_int (pipe_w p) - of_int (WIDTH div 4)) / of_int WIDTH,
           square_vel (square e) / 10,
           of_int (pipe_gap_h p - GAP_MIN) / of_int (GAP_START - GAP_MIN)])"

definition reset :: "int option \<Rightarrow> int option \<Rightarrow> rat list \<times> env" where
  "reset seed npr =
     (let e = \<lparr>square = new_Square, pipes = [], tick = 0, pipe_speed = PIPE_SPEED_START,
               gap_h = GAP_START, score = 0,
               np_random = (case seed of None \<Rightarrow> npr | Some s \<Rightarrow> Some s)\<rparr>
      in (get_obs e, e))"

text \<open>The spawn block of \<^verbatim>\<open>step\<close>; the draw comes from the module-level generator.\<close>

definition spawn :: "env \<Rightarrow> rng \<Rightarrow> error + (env \<times> rng)" where
  "spawn e g =
     (if tick e mod PIPE_INTERVAL_TICKS = 0 then
        (case randint 60 (HEIGHT - 60 - gap_h e) g of
           Inl err \<Rightarrow> Inl err
         | Inr (gap_y, g') \<Rightarrow>
             Inr (e\<lparr>pipes := pipes e @ [new_Pipe (of_int WIDTH) gap_y (gap_h e)]\<rparr>, g'))
      else Inr (e, g))"

text \<open>The body of the scoring branch: what happens when a pipe is counted as passed.\<close>

definition on_pass :: "env \<Rightarrow> env" where
  "on_pass e =
     e\<lparr>score := score e + 1,
       pipe_speed := pipe_speed e + 15 / 100,
       gap_h := max GAP_MIN (gap_h e - GAP_DEC)\<rparr>"

text \<open>
  One iteration of \<^verbatim>\<open>for pipe in list(self.pipes)\<close>: the pipe moves by the speed the
  environment has at that moment, the scoring branch may fire, and the result says
  whether the pipe is removed from the live list. The reward is threaded with the
  environment.
\<close>

definition fires :: "pipe \<Rightarrow> bool" where
  "fires p = (\<not> passed p \<and> pipe_x p + of_int (pipe_w p) < of_int (WIDTH div 4))"

definition pipe_iter :: "pipe \<Rightarrow> env \<Rightarrow> rat \<Rightarrow> pipe \<times> env \<times> rat" where
  "pipe_iter p e r =
     (let p1 = Pipe_update p (pipe_speed e) in
      if fires p1 then (p1\<lparr>passed := True\<rparr>, on_pass e, r + 1) else (p1, e, r))"

fun update_pipes :: "pipe list \<Rightarrow> env \<Rightarrow> rat \<Rightarrow> pipe list \<times> env \<times> rat" where
  "update_pipes [] e r = ([], e, r)"
| "update_pipes (p # ps) e r =
     (case pipe_iter p e r of
        (p', e', r') \<Rightarrow>
          (case update_pipes ps e' r' of
             (kept, e'', r'') \<Rightarrow> (if Pipe_off_screen p' then kept else p' # kept, e'', r'')))"

definition collided :: "env \<Rightarrow> bool" where
  "collided e =
     (square_y (square e) < 0
      \<or> square_y (square e) + of_int SQUARE_SIZE > of_int HEIGHT
      \<or> list_ex (\<lambda>p. list_ex (colliderect (Square_rect (square e))) (Pipe_rects p)) (pipes e))"

definition proximity_reward :: "env \<Rightarrow> pipe \<Rightarrow> rat" where
  "proximity_reward e p =
     (1 / 10) * (1 - \<bar>square_y (square e) - gap_centre p\<bar> / (of_int HEIGHT / 2))"

record step_result =
  r_obs :: "rat list"
  r_reward :: rat
  r_terminated :: bool
  r_truncated :: bool
  r_score :: int

definition step :: "int \<Rightarrow> env \<Rightarrow> rng \<Rightarrow> error + (step_result \<times> env \<times> rng)" where
  "step action e g =
     (let e1 = e\<lparr>square := Square_update (if action = 1 then Square_flap (square e) else square e)\<rparr>
      in case spawn e1 g of
           Inl err \<Rightarrow> Inl err
         | Inr (e2, g') \<Rightarrow>
             (case update_pipes (pipes e2) e2 (- (1 / 100)) of
                (kept, e3, reward) \<Rightarrow>
                  (let e4 = e3\<lparr>pipes := kept\<rparr>;
                       done = collided e4;
                       reward1 = (if done then - 1 else reward);
                       reward2 = (case next_pipe (pipes e4) of
                                    None \<Rightarrow> reward1
                                  | Some p \<Rightarrow> reward1 + proximity_reward e4 p);
                       e5 = e4\<lparr>tick := tick e4 + 1\<rparr>
                   in Inr (\<lparr>r_obs = get_obs e5, r_reward = reward2, r_terminated = done,
                            r_truncated = False, r_score = score e5\<rparr>, e5, g'))))"

text \<open>A sequence of steps; the first error ends it, as the exception would.\<close>

fun run :: "int list \<Rightarrow> env \<Rightarrow> rng \<Rightarrow> error + (step_result list \<times> env \<times> rng)" where
  "run [] e g = Inr ([], e, g)"
| "run (a # as) e g =
     (case step a e g of
        Inl err \<Rightarrow> Inl err
      | Inr (res, e', g') \<Rightarrow>
          (case run as e' g' of
             Inl err \<Rightarrow> Inl err
           | Inr (rs, e'', g'') \<Rightarrow> Inr (res # rs, e'', g'')))"

text \<open>
  What a caller sees of \<^verbatim>\<open>reset(seed=S)\<close> followed by the actions: the first
  observation, then the observation and reward of every step.
\<close>

definition episode ::
  "int option \<Rightarrow> int list \<Rightarrow> int option \<Rightarrow> rng \<Rightarrow> error + (rat list \<times> (rat list \<times> rat) list)" where
  "episode seed acts npr g =
     (case reset seed npr of
        (obs0, e0) \<Rightarrow>
          (case run acts e0 g of
             Inl err \<Rightarrow> Inl err
           | Inr (rs, e, g') \<Rightarrow> Inr (obs0, map (\<lambda>r. (r_obs r, r_reward r)) rs)))"

text \<open>The states of an episode: those \<^verbatim>\<open>reset\<close> returns and those steps lead to.\<close>

inductive reachable :: "env \<Rightarrow> bool" where
  reach_reset: "reachable (snd (reset seed npr))"
| reach_step: "reachable e \<Longrightarrow> step a e g = Inr (res, e', g') \<Longrightarrow> reachable e'"

subsection \<open>The blocks of a step\<close>

text \<open>
  Names for two blocks of \<^verbatim>\<open>step\<close>, used to state what a successful step did: the
  state after the physics block, and the returned tuple as a function of the final
  state and of the reward the pipe loop left behind.
\<close>

definition moved :: "int \<Rightarrow> env \<Rightarrow> env" where
  "moved action e =
     e\<lparr>square := Square_update (if action = 1 then Square_flap (square e) else square e)\<rparr>"

definition finish :: "env \<Rightarrow> rat \<Rightarrow> step_result" where
  "finish e5 reward =
     \<lparr>r_obs = get_obs e5,
      r_reward = (case next_pipe (pipes e5) of
                    None \<Rightarrow> (if collided e5 then - 1 else reward)
                  | Some p \<Rightarrow> (if collided e5 then - 1 else reward) + proximity_reward e5 p),
      r_terminated = collided e5, r_truncated = False, r_score = score e5\<rparr>"

subsection \<open>A concrete episode: free fall\<close>

text \<open>
  The episode used for the concrete evaluations below: \<^verbatim>\<open>reset(seed=42)\<close>, then the
  action 0 (do nothing) at every step, with a generator whose first draw gives the gap
  offset 60. \<open>fall_env k\<close> is the state after \<open>k\<close> such steps, in closed form; the
  square falls freely and the only pipe moves left by 3 per tick.
\<close>

definition start_env :: env where
  "start_env = snd (reset (Some 42) None)"

definition last_result :: "error + (step_result list \<times> env \<times> rng) \<Rightarrow> step_result option" where
  "last_result x = (case x of Inl err \<Rightarrow> None | Inr (rs, e, g) \<Rightarrow> (if rs = [] then None else Some (last rs)))"

definition final_env :: "error + (step_result list \<times> env \<times> rng) \<Rightarrow> env option" where
  "final_env x = (case x of Inl err \<Rightarrow> None | Inr (rs, e, g) \<Rightarrow> Some e)"

definition fall_env :: "nat \<Rightarrow> env" where
  "fall_env k =
     \<lparr>square = \<lparr>square_y = 320 + (7 / 40) * of_nat k * (of_nat k + 1), square_vel = (7 / 20) * of_nat k\<rparr>,
      pipes = (if k = 0 then [] else [\<lparr>pipe_x = 480 - 3 * of_nat k, pipe_w = 60, pipe_gap_y = 60,
                 pipe_gap_h = 170, passed = False\<rparr>]),
      tick = int k, pipe_speed = 3, gap_h = 170, score = 0, np_random = Some 42\<rparr>"

subsection \<open>Well-formed states\<close>

text \<open>
  What every pipe and every state of an episode satisfies: a pipe is 60 wide, at or left
  of the right screen edge, and its gap fits on the screen with the margin of 60; the
  ambient gap height lies between its floor and its start value.
\<close>

definition pipe_ok :: "pipe \<Rightarrow> bool" where
  "pipe_ok p = (pipe_w p = 60 \<and> pipe_x p \<le> of_int WIDTH \<and> 60 \<le> pipe_gap_y p
     \<and> pipe_gap_y p + pipe_gap_h p \<le> HEIGHT - 60
     \<and> GAP_MIN \<le> pipe_gap_h p \<and> pipe_gap_h p \<le> GAP_START)"

definition env_ok :: "env \<Rightarrow> bool" where
  "env_ok e = (GAP_MIN \<le> gap_h e \<and> gap_h e \<le> GAP_START \<and> PIPE_SPEED_START \<le> pipe_speed e
     \<and> 0 \<le> score e \<and> 0 \<le> tick e \<and> list_all pipe_ok (pipes e))"

text \<open>The number of live pipes that are not flagged as passed.\<close>

definition unpassed :: "pipe list \<Rightarrow> int" where
  "unpassed ps = int (length (filter (\<lambda>p. \<not> passed p) ps))"

section \<open>Basic facts\<close>

lemmas consts_defs = WIDTH_def HEIGHT_def GRAVITY_def FLAP_STRENGTH_def
  PIPE_INTERVAL_TICKS_def PIPE_SPEED_START_def GAP_START_def GAP_MIN_def GAP_DEC_def
  SQUARE_SIZE_def

subsection \<open>The pipe loop\<close>

lemma pipe_iter_frame:
  assumes "pipe_iter p e r = (p', e', r')"
  shows "tick e' = tick e" "square e' = square e" "np_random e' = np_random e" "pipes e' = pipes e"
  using assms by (auto simp: pipe_iter_def on_pass_def Let_def split: if_splits)

lemma pipe_iter_mono:
  assumes "pipe_iter p e r = (p', e', r')"
  shows "score e \<le> score e'" "pipe_speed e \<le> pipe_speed e'"
  using assms by (auto simp: pipe_iter_def on_pass_def Let_def split: if_splits)

lemma pipe_iter_gap:
  assumes "pipe_iter p e r = (p', e', r')" "GAP_MIN \<le> gap_h e"
  shows "GAP_MIN \<le> gap_h e'" "gap_h e' \<le> gap_h e"
  using assms by (auto simp: pipe_iter_def on_pass_def Let_def GAP_DEC_def split: if_splits)

lemma update_pipes_frame:
  "update_pipes ps e r = (kept, e', r') \<Longrightarrow>
     tick e' = tick e \<and> square e' = square e \<and> np_random e' = np_random e \<and> pipes e' = pipes e"
proof (induction ps arbitrary: e r kept e' r')
  case Nil
  then show ?case by simp
next
  case (Cons p ps)
  obtain p1 e1 r1 where it: "pipe_iter p e r = (p1, e1, r1)" by (cases "pipe_iter p e r") auto
  obtain k2 e2 r2 where rest: "update_pipes ps e1 r1 = (k2, e2, r2)"
    by (cases "update_pipes ps e1 r1") auto
  from Cons.prems it rest have "e' = e2" by simp
  with Cons.IH[OF rest] pipe_iter_frame[OF it] show ?case by simp
qed

lemma update_pipes_mono:
  "update_pipes ps e r = (kept, e', r') \<Longrightarrow> score e \<le> score e' \<and> pipe_speed e \<le> pipe_speed e'"
proof (induction ps arbitrary: e r kept e' r')
  case Nil
  then show ?case by simp
next
  case (Cons p ps)
  obtain p1 e1 r1 where it: "pipe_iter p e r = (p1, e1, r1)" by (cases "pipe_iter p e r") auto
  obtain k2 e2 r2 where rest: "update_pipes ps e1 r1 = (k2, e2, r2)"
    by (cases "update_pipes ps e1 r1") auto
  from Cons.prems it rest have "e' = e2" by simp
  with Cons.IH[OF rest] pipe_iter_mono[OF it] show ?case by simp
qed

lemma update_pipes_gap:
  "update_pipes ps e r = (kept, e', r') \<Longrightarrow> GAP_MIN \<le> gap_h e \<Longrightarrow>
     GAP_MIN \<le> gap_h e' \<and> gap_h e' \<le> gap_h e"
proof (induction ps arbitrary: e r kept e' r')
  case Nil
  then show ?case by simp
next
  case (Cons p ps)
  obtain p1 e1 r1 where it: "pipe_iter p e r = (p1, e1, r1)" by (cases "pipe_iter p e r") auto
  obtain k2 e2 r2 where rest: "update_pipes ps e1 r1 = (k2, e2, r2)"
    by (cases "update_pipes ps e1 r1") auto
  from Cons.prems it rest have e': "e' = e2" by simp
  note g1 = pipe_iter_gap[OF it Cons.prems(2)]
  from Cons.IH[OF rest g1(1)] g1 e' show ?case by simp
qed

lemma pipe_iter_ok:
  assumes "pipe_iter p e r = (p', e', r')" "pipe_ok p" "0 \<le> pipe_speed e"
  shows "pipe_ok p'"
  using assms
  by (auto simp: pipe_iter_def Pipe_update_def pipe_ok_def Let_def split: if_splits)

lemma update_pipes_kept_ok:
  "update_pipes ps e r = (kept, e', r') \<Longrightarrow> list_all pipe_ok ps \<Longrightarrow> 0 \<le> pipe_speed e \<Longrightarrow>
     list_all pipe_ok kept"
proof (induction ps arbitrary: e r kept e' r')
  case Nil
  then show ?case by simp
next
  case (Cons p ps)
  obtain p1 e1 r1 where it: "pipe_iter p e r = (p1, e1, r1)" by (cases "pipe_iter p e r") auto
  obtain k2 e2 r2 where rest: "update_pipes ps e1 r1 = (k2, e2, r2)"
    by (cases "update_pipes ps e1 r1") auto
  from Cons.prems(1) it rest have k: "kept = (if Pipe_off_screen p1 then k2 else p1 # k2)" by simp
  from Cons.prems(2) have okp: "pipe_ok p" and okps: "list_all pipe_ok ps" by simp_all
  have s1: "0 \<le> pipe_speed e1" using pipe_iter_mono(2)[OF it] Cons.prems(3) by simp
  from Cons.IH[OF rest okps s1] pipe_iter_ok[OF it okp Cons.prems(3)] k show ?case by simp
qed

lemma randint_range:
  assumes "a \<le> b"
  shows "\<exists>v g'. randint a b g = Inr (v, g') \<and> a \<le> v \<and> v \<le> b"
proof -
  have pos: "0 < nat (b - a + 1)" using assms by simp
  have "g 0 mod nat (b - a + 1) < nat (b - a + 1)" using pos by (rule mod_less_divisor)
  then have "int (g 0 mod nat (b - a + 1)) < b - a + 1" by linarith
  with assms show ?thesis by (simp add: randint_def)
qed

subsection \<open>Steps\<close>

lemma spawn_Inr:
  assumes "spawn e g = Inr (e2, g')"
  shows "(tick e mod PIPE_INTERVAL_TICKS \<noteq> 0 \<and> e2 = e \<and> g' = g) \<or>
         (tick e mod PIPE_INTERVAL_TICKS = 0 \<and>
          (\<exists>gy. 60 \<le> gy \<and> gy \<le> HEIGHT - 60 - gap_h e \<and>
                e2 = e\<lparr>pipes := pipes e @ [new_Pipe (of_int WIDTH) gy (gap_h e)]\<rparr>))"
proof (cases "tick e mod PIPE_INTERVAL_TICKS = 0")
  case False
  with assms show ?thesis by (simp add: spawn_def)
next
  case True
  show ?thesis
  proof (cases "60 \<le> HEIGHT - 60 - gap_h e")
    case le: True
    from randint_range[OF le, of g] obtain v g1 where
      r: "randint 60 (HEIGHT - 60 - gap_h e) g = Inr (v, g1)" and v: "60 \<le> v" "v \<le> HEIGHT - 60 - gap_h e"
      by blast
    from assms True r have "e2 = e\<lparr>pipes := pipes e @ [new_Pipe (of_int WIDTH) v (gap_h e)]\<rparr>"
      by (simp add: spawn_def)
    with True v show ?thesis by blast
  next
    case False
    then have "randint 60 (HEIGHT - 60 - gap_h e) g = Inl ValueError" by (simp add: randint_def)
    with assms True show ?thesis by (simp add: spawn_def)
  qed
qed

lemma spawn_total:
  assumes "gap_h e \<le> HEIGHT - 120"
  shows "\<exists>e2 g'. spawn e g = Inr (e2, g')"
proof (cases "tick e mod PIPE_INTERVAL_TICKS = 0")
  case False
  then show ?thesis by (simp add: spawn_def)
next
  case True
  from assms have le: "60 \<le> HEIGHT - 60 - gap_h e" by simp
  from randint_range[OF le, of g] obtain v g1 where
    "randint 60 (HEIGHT - 60 - gap_h e) g = Inr (v, g1)" by blast
  with True show ?thesis by (simp add: spawn_def)
qed

lemma collided_tick [simp]: "collided (e\<lparr>tick := t\<rparr>) = collided e"
  by (simp add: collided_def)

lemma proximity_tick [simp]: "proximity_reward (e\<lparr>tick := t\<rparr>) p = proximity_reward e p"
  by (simp add: proximity_reward_def)

lemma step_Inr:
  assumes "step a e g = Inr (res, e', g')"
  shows "\<exists>e2 kept e3 reward.
           spawn (moved a e) g = Inr (e2, g') \<and>
           update_pipes (pipes e2) e2 (- (1 / 100)) = (kept, e3, reward) \<and>
           e' = e3\<lparr>pipes := kept, tick := tick e3 + 1\<rparr> \<and>
           res = finish e' reward"
proof -
  from assms obtain e2 where sp: "spawn (moved a e) g = Inr (e2, g')"
    by (auto simp: step_def moved_def Let_def split: sum.splits prod.splits)
  obtain kept e3 reward where up: "update_pipes (pipes e2) e2 (- (1 / 100)) = (kept, e3, reward)"
    by (cases "update_pipes (pipes e2) e2 (- (1 / 100))") auto
  from assms sp up have "e' = e3\<lparr>pipes := kept, tick := tick e3 + 1\<rparr>"
    and "res = finish e' reward"
    by (auto simp: step_def moved_def[symmetric] finish_def Let_def split: option.splits)
  with sp up show ?thesis by blast
qed

lemma step_total:
  assumes "gap_h e \<le> HEIGHT - 120"
  shows "\<exists>res e' g'. step a e g = Inr (res, e', g')"
proof -
  have "gap_h (moved a e) \<le> HEIGHT - 120" using assms by (simp add: moved_def)
  from spawn_total[OF this, of g] obtain e2 g' where sp: "spawn (moved a e) g = Inr (e2, g')"
    by blast
  obtain kept e3 reward where up: "update_pipes (pipes e2) e2 (- (1 / 100)) = (kept, e3, reward)"
    by (cases "update_pipes (pipes e2) e2 (- (1 / 100))") auto
  from sp up show ?thesis by (simp add: step_def moved_def[symmetric] Let_def)
qed

lemma new_Pipe_ok:
  "60 \<le> gy \<Longrightarrow> gy \<le> HEIGHT - 60 - gh \<Longrightarrow> GAP_MIN \<le> gh \<Longrightarrow> gh \<le> GAP_START \<Longrightarrow>
     pipe_ok (new_Pipe (of_int WIDTH) gy gh)"
  by (simp add: pipe_ok_def new_Pipe_def)

lemma spawn_env_ok:
  assumes "spawn e g = Inr (e2, g')" "env_ok e"
  shows "env_ok e2"
  using spawn_Inr[OF assms(1)] assms(2)
  by (auto simp: env_ok_def new_Pipe_ok)

lemma step_env_ok:
  assumes "step a e g = Inr (res, e', g')" "env_ok e"
  shows "env_ok e'"
proof -
  from step_Inr[OF assms(1)] obtain e2 kept e3 reward where
    sp: "spawn (moved a e) g = Inr (e2, g')" and
    up: "update_pipes (pipes e2) e2 (- (1 / 100)) = (kept, e3, reward)" and
    e': "e' = e3\<lparr>pipes := kept, tick := tick e3 + 1\<rparr>" by blast
  have "env_ok (moved a e)" using assms(2) by (simp add: env_ok_def moved_def)
  from spawn_env_ok[OF sp this] have ok2: "env_ok e2" .
  then have sp0: "0 \<le> pipe_speed e2" by (simp add: env_ok_def PIPE_SPEED_START_def)
  from ok2 have g2: "GAP_MIN \<le> gap_h e2" and pk: "list_all pipe_ok (pipes e2)"
    by (simp_all add: env_ok_def)
  from update_pipes_kept_ok[OF up pk sp0] have k: "list_all pipe_ok kept" .
  from update_pipes_gap[OF up g2] update_pipes_mono[OF up] update_pipes_frame[OF up] ok2 k e'
  show ?thesis by (simp add: env_ok_def)
qed

lemma reset_env_ok: "env_ok (snd (reset seed npr))"
  by (simp add: reset_def env_ok_def Let_def consts_defs)

lemma reachable_env_ok: "reachable e \<Longrightarrow> env_ok e"
  by (induction rule: reachable.induct) (auto simp: reset_env_ok intro: step_env_ok)

lemma env_ok_gap_fits: "env_ok e \<Longrightarrow> gap_h e \<le> HEIGHT - 120"
  by (simp add: env_ok_def consts_defs)

subsection \<open>The free-fall episode\<close>

lemma const_rng_tail [simp]: "(\<lambda>n. const_rng k (Suc n)) = const_rng k"
  by (simp add: const_rng_def)

lemma step_eq:
  assumes "spawn (moved a e) g = Inr (e2, g')"
    and "update_pipes (pipes e2) e2 (- (1 / 100)) = (kept, e3, reward)"
  shows "step a e g =
           Inr (finish (e3\<lparr>pipes := kept, tick := tick e3 + 1\<rparr>) reward,
                e3\<lparr>pipes := kept, tick := tick e3 + 1\<rparr>, g')"
  using assms by (simp add: step_def moved_def[symmetric] finish_def Let_def split: option.splits)

lemma fall_start: "fall_env 0 = start_env"
  by (simp add: fall_env_def start_env_def reset_def new_Square_def consts_defs Let_def)

lemma fall_step:
  assumes "k \<le> 89"
  shows "step 0 (fall_env k) (const_rng 0) =
           Inr (finish (fall_env (Suc k)) (- (1 / 100)), fall_env (Suc k), const_rng 0)"
proof -
  let ?p = "\<lparr>pipe_x = 480 - 3 * of_nat k, pipe_w = 60, pipe_gap_y = 60,
                 pipe_gap_h = 170, passed = False\<rparr>"
  let ?m = "moved 0 (fall_env k)"
  let ?e2 = "?m\<lparr>pipes := [?p]\<rparr>"
  have sp: "spawn ?m (const_rng 0) = Inr (?e2, const_rng 0)"
  proof (cases "k = 0")
    case True
    then show ?thesis
      by (simp add: spawn_def moved_def fall_env_def randint_def consts_defs new_Pipe_def)
        (simp add: const_rng_def)
  next
    case False
    with assms have "int k mod 90 \<noteq> 0" by presburger
    with False show ?thesis
      by (simp add: spawn_def moved_def fall_env_def consts_defs)
  qed
  let ?p' = "\<lparr>pipe_x = 480 - 3 * of_nat (Suc k), pipe_w = 60, pipe_gap_y = 60,
                 pipe_gap_h = 170, passed = False\<rparr>"
  have k: "(of_nat k :: rat) \<le> 89" using assms by (metis of_nat_le_iff of_nat_numeral)
  have up: "update_pipes (pipes ?e2) ?e2 (- (1 / 100)) = ([?p'], ?e2, - (1 / 100))"
    using k
    by (simp add: pipe_iter_def Pipe_update_def fires_def Pipe_off_screen_def moved_def
        fall_env_def consts_defs Let_def)
  have fin: "?e2\<lparr>pipes := [?p'], tick := tick ?e2 + 1\<rparr> = fall_env (Suc k)"
    by (simp add: moved_def fall_env_def Square_update_def consts_defs Let_def field_simps)
  from step_eq[OF sp up] fin show ?thesis by simp
qed

lemma run_append:
  "run (as @ bs) e g =
     (case run as e g of
        Inl err \<Rightarrow> Inl err
      | Inr (rs, e', g') \<Rightarrow>
          (case run bs e' g' of
             Inl err \<Rightarrow> Inl err
           | Inr (rs', e'', g'') \<Rightarrow> Inr (rs @ rs', e'', g'')))"
  by (induction as arbitrary: e g) (auto split: sum.splits)

lemma fall_run:
  "k \<le> 90 \<Longrightarrow> \<exists>rs. run (replicate k 0) start_env (const_rng 0) = Inr (rs, fall_env k, const_rng 0)
      \<and> length rs = k \<and> (0 < k \<longrightarrow> last rs = finish (fall_env k) (- (1 / 100)))"
proof (induction k)
  case 0
  then show ?case by (simp add: fall_start)
next
  case (Suc k)
  then obtain rs where rs: "run (replicate k 0) start_env (const_rng 0) = Inr (rs, fall_env k, const_rng 0)"
    and len: "length rs = k" by auto
  from Suc.prems have "k \<le> 89" by simp
  note st = fall_step[OF this]
  have "replicate (Suc k) (0::int) = replicate k 0 @ [0]" by (simp add: replicate_append_same)
  then have "run (replicate (Suc k) 0) start_env (const_rng 0) =
      Inr (rs @ [finish (fall_env (Suc k)) (- (1 / 100))], fall_env (Suc k), const_rng 0)"
    using rs st by (simp add: run_append del: replicate_Suc)
  with len show ?case by simp
qed

lemma fall_result_40:
  "finish (fall_env 40) (- (1 / 100)) =
     \<lparr>r_obs = [231 / 160, 5 / 8, 7 / 5, 1], r_reward = - (1671 / 1600),
         r_terminated = True, r_truncated = False, r_score = 0\<rparr>"
  by (simp add: finish_def fall_env_def collided_def get_obs_def next_pipe_def upcoming_def
      proximity_reward_def gap_centre_def consts_defs)

subsection \<open>Runs and the free-fall episode, continued\<close>

lemma reachable_run:
  "reachable e \<Longrightarrow> run as e g = Inr (rs, e', g') \<Longrightarrow> reachable e'"
proof (induction as arbitrary: e g rs)
  case Nil
  then show ?case by simp
next
  case (Cons a as)
  from Cons.prems(2) obtain res e1 g1 where st: "step a e g = Inr (res, e1, g1)"
    by (auto split: sum.splits)
  with Cons.prems(2) obtain rs1 where "run as e1 g1 = Inr (rs1, e', g')"
    by (auto split: sum.splits)
  with Cons.IH reach_step[OF Cons.prems(1) st] show ?case by blast
qed

lemma reachable_start: "reachable start_env"
  unfolding start_env_def by (rule reach_reset)

lemma reachable_fall: "k \<le> 90 \<Longrightarrow> reachable (fall_env k)"
  using fall_run[of k] reachable_run[OF reachable_start] by blast

lemma last_result_fall:
  assumes "0 < k" "k \<le> 90"
  shows "last_result (run (replicate k 0) start_env (const_rng 0)) = Some (finish (fall_env k) (- (1 / 100)))"
    and "final_env (run (replicate k 0) start_env (const_rng 0)) = Some (fall_env k)"
proof -
  from fall_run[OF assms(2)] assms(1) obtain rs where
    "run (replicate k 0) start_env (const_rng 0) = Inr (rs, fall_env k, const_rng 0)"
    "length rs = k" "last rs = finish (fall_env k) (- (1 / 100))" by blast
  with assms(1) show "last_result (run (replicate k 0) start_env (const_rng 0)) = Some (finish (fall_env k) (- (1 / 100)))"
    and "final_env (run (replicate k 0) start_env (const_rng 0)) = Some (fall_env k)"
    by (auto simp: last_result_def final_env_def)
qed

lemma fall_env_40:
  "fall_env 40 =
     \<lparr>square = \<lparr>square_y = 607, square_vel = 14\<rparr>,
      pipes = [\<lparr>pipe_x = 360, pipe_w = 60, pipe_gap_y = 60, pipe_gap_h = 170, passed = False\<rparr>],
      tick = 40, pipe_speed = 3, gap_h = 170, score = 0, np_random = Some 42\<rparr>"
  by (simp add: fall_env_def)

lemma fall_env_41:
  "fall_env 41 =
     \<lparr>square = \<lparr>square_y = 12427 / 20, square_vel = 287 / 20\<rparr>,
      pipes = [\<lparr>pipe_x = 357, pipe_w = 60, pipe_gap_y = 60, pipe_gap_h = 170, passed = False\<rparr>],
      tick = 41, pipe_speed = 3, gap_h = 170, score = 0, np_random = Some 42\<rparr>"
  by (simp add: fall_env_def)

lemma fall_result_41:
  "finish (fall_env 41) (- (1 / 100)) =
     \<lparr>r_obs = [9527 / 6400, 99 / 160, 287 / 200, 1], r_reward = - (67127 / 64000),
         r_terminated = True, r_truncated = False, r_score = 0\<rparr>"
  by (simp add: finish_def fall_env_def collided_def get_obs_def next_pipe_def upcoming_def
      proximity_reward_def gap_centre_def consts_defs)

subsection \<open>The next pipe\<close>

lemma min_by_x_mem: "min_by_x b ps \<in> set (b # ps)"
  by (induction ps arbitrary: b) auto

lemma min_by_x_le: "q \<in> set (b # ps) \<Longrightarrow> pipe_x (min_by_x b ps) \<le> pipe_x q"
proof (induction ps arbitrary: b q)
  case Nil
  then show ?case by simp
next
  case (Cons p ps)
  let ?b = "if pipe_x p < pipe_x b then p else b"
  have lb: "pipe_x (min_by_x ?b ps) \<le> pipe_x ?b" using Cons.IH[where b = ?b and q = ?b] by simp
  from Cons.prems consider "q = b" | "q = p" | "q \<in> set ps" by auto
  then show ?case
  proof cases
    case 1
    with lb show ?thesis by (auto split: if_splits)
  next
    case 2
    with lb show ?thesis by (auto split: if_splits)
  next
    case 3
    then have "q \<in> set (?b # ps)" by simp
    from Cons.IH[OF this] show ?thesis by simp
  qed
qed

lemma next_pipe_None: "next_pipe ps = None \<longleftrightarrow> (\<forall>p\<in>set ps. \<not> upcoming p)"
  by (auto simp: next_pipe_def filter_empty_conv split: list.splits)
    (metis filter_empty_conv list.distinct(1))

lemma next_pipe_Some:
  assumes "next_pipe ps = Some p"
  shows "p \<in> set ps" "upcoming p" "\<And>q. q \<in> set ps \<Longrightarrow> upcoming q \<Longrightarrow> pipe_x p \<le> pipe_x q"
proof -
  from assms obtain b qs where f: "filter upcoming ps = b # qs" and p: "p = min_by_x b qs"
    by (auto simp: next_pipe_def split: list.splits)
  have "p \<in> set (filter upcoming ps)" using min_by_x_mem[of b qs] f p by simp
  then show "p \<in> set ps" "upcoming p" by simp_all
  fix q assume "q \<in> set ps" "upcoming q"
  then have "q \<in> set (filter upcoming ps)" by simp
  then have "q \<in> set (b # qs)" using f by simp
  from min_by_x_le[OF this] p show "pipe_x p \<le> pipe_x q" by simp
qed


subsection \<open>Unfolding a step on concrete states\<close>

lemmas step_eval = step_def spawn_def randint_def const_rng_def pipe_iter_def fires_def
  on_pass_def Pipe_update_def Pipe_off_screen_def collided_def Square_rect_def Pipe_rects_def
  colliderect_def py_int_def next_pipe_def upcoming_def proximity_reward_def gap_centre_def
  get_obs_def Square_update_def Square_flap_def new_Pipe_def Let_def consts_defs reset_def
  new_Square_def

subsection \<open>Accounting of the score\<close>

lemma unpassed_simps [simp]:
  "unpassed [] = 0"
  "unpassed (p # ps) = (if passed p then 0 else 1) + unpassed ps"
  "unpassed (ps @ qs) = unpassed ps + unpassed qs"
  by (simp_all add: unpassed_def)










section \<open>Counters of an episode\<close>

text \<open>
  Claim C5. In every state of an episode (reached from \<^verbatim>\<open>reset\<close> by steps), a step
  that returns increases the tick counter by exactly 1, does not decrease the score,
  does not decrease the pipe speed, does not increase the gap height, and leaves the gap
  height at or above \<open>GAP_MIN\<close>.
\<close>

theorem step_counters_monotone:
  assumes "reachable e" and "step a e g = Inr (res, e', g')"
  shows "tick e' = tick e + 1 \<and> score e \<le> score e' \<and> pipe_speed e \<le> pipe_speed e'
       \<and> gap_h e' \<le> gap_h e \<and> GAP_MIN \<le> gap_h e'"
proof -
  from step_Inr[OF assms(2)] obtain e2 kept e3 reward where
    sp: "spawn (moved a e) g = Inr (e2, g')" and
    up: "update_pipes (pipes e2) e2 (- (1 / 100)) = (kept, e3, reward)" and
    e': "e' = e3\<lparr>pipes := kept, tick := tick e3 + 1\<rparr>" by blast
  from spawn_Inr[OF sp] have same:
    "tick e2 = tick e" "score e2 = score e" "pipe_speed e2 = pipe_speed e" "gap_h e2 = gap_h e"
    by (auto simp: moved_def)
  from reachable_env_ok[OF assms(1)] have "GAP_MIN \<le> gap_h e2"
    using same by (simp add: env_ok_def)
  from update_pipes_gap[OF up this] update_pipes_mono[OF up] update_pipes_frame[OF up] same e'
  show ?thesis by simp
qed

text \<open>The statement at the forty-first step of the free-fall episode.\<close>

theorem step_counters_monotone_witness:
  "reachable (fall_env 40) \<and>
   step 0 (fall_env 40) (const_rng 0) = Inr (finish (fall_env 41) (- (1 / 100)), fall_env 41, const_rng 0) \<and>
   tick (fall_env 41) = tick (fall_env 40) + 1 \<and> score (fall_env 40) \<le> score (fall_env 41) \<and>
   pipe_speed (fall_env 40) \<le> pipe_speed (fall_env 41) \<and>
   gap_h (fall_env 41) \<le> gap_h (fall_env 40) \<and> GAP_MIN \<le> gap_h (fall_env 41)"
proof -
  have r: "reachable (fall_env 40)" by (rule reachable_fall) simp
  have s: "step 0 (fall_env 40) (const_rng 0) =
      Inr (finish (fall_env (Suc 40)) (- (1 / 100)), fall_env (Suc 40), const_rng 0)"
    by (rule fall_step) simp
  have "Suc 40 = 41" by simp
  with s have s': "step 0 (fall_env 40) (const_rng 0) =
      Inr (finish (fall_env 41) (- (1 / 100)), fall_env 41, const_rng 0)" by simp
  from step_counters_monotone[OF r s'] r s' show ?thesis by simp
qed

section \<open>The spawn draw cannot fail\<close>

text \<open>
  Claim C9. In every state of an episode the ambient gap height lies in
  \<open>[GAP_MIN, GAP_START]\<close>, hence the bounds of the draw are valid
  (\<open>60 \<le> HEIGHT - 60 - gap_h\<close>), \<^verbatim>\<open>random.randint\<close> returns a value whatever the
  generator's state is, and the whole step returns a result rather than an error.
\<close>

theorem spawn_draw_never_fails:
  assumes "reachable e"
  shows "GAP_MIN \<le> gap_h e \<and> gap_h e \<le> GAP_START \<and> 60 \<le> HEIGHT - 60 - gap_h e
       \<and> (\<exists>v g'. randint 60 (HEIGHT - 60 - gap_h e) g = Inr (v, g'))
       \<and> (\<exists>res e' g'. step a e g = Inr (res, e', g'))"
proof -
  from reachable_env_ok[OF assms] have ok: "env_ok e" .
  then have b: "GAP_MIN \<le> gap_h e" "gap_h e \<le> GAP_START" by (simp_all add: env_ok_def)
  then have le: "60 \<le> HEIGHT - 60 - gap_h e" by (simp add: consts_defs)
  from randint_range[OF le, of g] have "\<exists>v g'. randint 60 (HEIGHT - 60 - gap_h e) g = Inr (v, g')"
    by blast
  with b le step_total[OF env_ok_gap_fits[OF ok], of a g] show ?thesis by blast
qed

text \<open>The statement at the first state of the episode.\<close>

theorem spawn_draw_never_fails_witness:
  "reachable start_env \<and> GAP_MIN \<le> gap_h start_env \<and> gap_h start_env \<le> GAP_START
     \<and> 60 \<le> HEIGHT - 60 - gap_h start_env
     \<and> randint 60 (HEIGHT - 60 - gap_h start_env) (const_rng 7) = Inr (67, const_rng 7)
     \<and> step 0 start_env (const_rng 0) = Inr (finish (fall_env 1) (- (1 / 100)), fall_env 1, const_rng 0)"
proof -
  have s: "step 0 (fall_env 0) (const_rng 0) =
      Inr (finish (fall_env (Suc 0)) (- (1 / 100)), fall_env (Suc 0), const_rng 0)"
    by (rule fall_step) simp
  have d: "randint 60 (HEIGHT - 60 - gap_h start_env) (const_rng 7) = Inr (67, const_rng 7)"
    by (simp add: randint_def start_env_def reset_def Let_def consts_defs) (simp add: const_rng_def)
  from spawn_draw_never_fails[OF reachable_start, of "const_rng 7" 0] reachable_start s d
  show ?thesis by (simp add: fall_start)
qed

section \<open>The reward of a colliding step\<close>

text \<open>
  Claim C2, evaluated on the code. After \<^verbatim>\<open>reset(seed=42)\<close> and forty steps with
  action 0 (first gap offset drawn: 60) the square has left the screen at the bottom
  (\<open>y + 38 = 645 > 640\<close>): the fortieth step returns terminated = true, and its reward
  is \<open>-1671/1600 = -1.044375\<close>, that is \<open>-1.0\<close> plus the shaping term
  \<open>0.1 * (1 - 462/320)\<close>, not \<open>-1.0\<close>.
\<close>

theorem collision_reward_after_fall:
  "last_result (run (replicate 40 0) start_env (const_rng 0)) =
     Some \<lparr>r_obs = [231 / 160, 5 / 8, 7 / 5, 1], r_reward = - (1671 / 1600),
           r_terminated = True, r_truncated = False, r_score = 0\<rparr>"
  using last_result_fall(1)[of 40] by (simp add: fall_result_40)

section \<open>Stepping after termination\<close>

text \<open>
  Claim C3 fails as stated. In the free-fall episode the fortieth step returns
  terminated = true in the state with tick 40 and \<open>y = 607\<close>. A further step in that
  state, with no reset in between, returns neither an error nor the last observation:
  it returns a new observation and moves the state on to tick 41 and \<open>y = 621.35\<close>.
\<close>

theorem step_after_terminated_counterexample:
  "last_result (run (replicate 40 0) start_env (const_rng 0)) =
     Some \<lparr>r_obs = [231 / 160, 5 / 8, 7 / 5, 1], r_reward = - (1671 / 1600),
           r_terminated = True, r_truncated = False, r_score = 0\<rparr>
   \<and> final_env (run (replicate 40 0) start_env (const_rng 0)) =
     Some \<lparr>square = \<lparr>square_y = 607, square_vel = 14\<rparr>,
      pipes = [\<lparr>pipe_x = 360, pipe_w = 60, pipe_gap_y = 60, pipe_gap_h = 170, passed = False\<rparr>],
      tick = 40, pipe_speed = 3, gap_h = 170, score = 0, np_random = Some 42\<rparr>
   \<and> step 0
       \<lparr>square = \<lparr>square_y = 607, square_vel = 14\<rparr>,
        pipes = [\<lparr>pipe_x = 360, pipe_w = 60, pipe_gap_y = 60, pipe_gap_h = 170, passed = False\<rparr>],
        tick = 40, pipe_speed = 3, gap_h = 170, score = 0, np_random = Some 42\<rparr>
       (const_rng 0) =
     Inr (\<lparr>r_obs = [9527 / 6400, 99 / 160, 287 / 200, 1], r_reward = - (67127 / 64000),
           r_terminated = True, r_truncated = False, r_score = 0\<rparr>,
          \<lparr>square = \<lparr>square_y = 12427 / 20, square_vel = 287 / 20\<rparr>,
           pipes = [\<lparr>pipe_x = 357, pipe_w = 60, pipe_gap_y = 60, pipe_gap_h = 170, passed = False\<rparr>],
           tick = 41, pipe_speed = 3, gap_h = 170, score = 0, np_random = Some 42\<rparr>,
          const_rng 0)"
proof -
  have s: "step 0 (fall_env 40) (const_rng 0) =
      Inr (finish (fall_env (Suc 40)) (- (1 / 100)), fall_env (Suc 40), const_rng 0)"
    by (rule fall_step) simp
  have "Suc 40 = 41" by simp
  with s have "step 0 (fall_env 40) (const_rng 0) =
      Inr (finish (fall_env 41) (- (1 / 100)), fall_env 41, const_rng 0)" by simp
  then show ?thesis
    using last_result_fall[of 40]
    by (simp add: fall_result_40[unfolded fall_env_40] fall_result_41[unfolded fall_env_41]
        fall_env_40 fall_env_41)
qed

text \<open>
  Claim C3 as amended. A step taken after a step that returned terminated = true, with
  no reset in between, is accepted like any other step: it returns a result (so it
  raises no error of the kind \<^verbatim>\<open>InvalidStateError\<close>), it increases the tick counter by
  1, and it integrates the physics once more (the velocity is the flap impulse if the
  action is 1, the old velocity otherwise, plus gravity; the position moves by the new
  velocity).
\<close>

theorem step_after_terminated_accepted:
  assumes "reachable e0" and "step a0 e0 g0 = Inr (res, e, g)" and "r_terminated res"
  shows "\<exists>res' e' g'. step a e g1 = Inr (res', e', g')
           \<and> tick e' = tick e + 1
           \<and> square e' = Square_update (if a = 1 then Square_flap (square e) else square e)"
proof -
  from reach_step[OF assms(1,2)] have r: "reachable e" .
  from step_total[OF env_ok_gap_fits[OF reachable_env_ok[OF r]], of a g1]
  obtain res' e' g' where st: "step a e g1 = Inr (res', e', g')" by blast
  from step_Inr[OF st] obtain e2 kept e3 reward where
    sp: "spawn (moved a e) g1 = Inr (e2, g')" and
    up: "update_pipes (pipes e2) e2 (- (1 / 100)) = (kept, e3, reward)" and
    e': "e' = e3\<lparr>pipes := kept, tick := tick e3 + 1\<rparr>" by blast
  from spawn_Inr[OF sp] have "tick e2 = tick e" "square e2 = square (moved a e)"
    by (auto simp: moved_def)
  with update_pipes_frame[OF up] e' have "tick e' = tick e + 1"
    "square e' = Square_update (if a = 1 then Square_flap (square e) else square e)"
    by (simp_all add: moved_def)
  with st show ?thesis by blast
qed

text \<open>The statement at the fortieth and forty-first steps of the free-fall episode.\<close>

theorem step_after_terminated_accepted_witness:
  "reachable (fall_env 39)
   \<and> step 0 (fall_env 39) (const_rng 0) = Inr (finish (fall_env 40) (- (1 / 100)), fall_env 40, const_rng 0)
   \<and> r_terminated (finish (fall_env 40) (- (1 / 100)))
   \<and> (\<exists>res' e' g'. step 0 (fall_env 40) (const_rng 0) = Inr (res', e', g')
           \<and> tick e' = tick (fall_env 40) + 1
           \<and> square e' = Square_update (if (0::int) = 1 then Square_flap (square (fall_env 40)) else square (fall_env 40)))"
proof -
  have r: "reachable (fall_env 39)" by (rule reachable_fall) simp
  have s: "step 0 (fall_env 39) (const_rng 0) =
      Inr (finish (fall_env (Suc 39)) (- (1 / 100)), fall_env (Suc 39), const_rng 0)"
    by (rule fall_step) simp
  have "Suc 39 = 40" by simp
  with s have s': "step 0 (fall_env 39) (const_rng 0) =
      Inr (finish (fall_env 40) (- (1 / 100)), fall_env 40, const_rng 0)" by simp
  have t: "r_terminated (finish (fall_env 40) (- (1 / 100)))" by (simp add: fall_result_40)
  from step_after_terminated_accepted[OF r s' t, of 0 "const_rng 0"] r s' t
  show ?thesis by simp
qed

section \<open>The seed and the gap offsets\<close>

text \<open>
  Claim C1, evaluated on the code. \<^verbatim>\<open>reset(seed=42)\<close> followed by one step with action
  0, run twice with the module-level generator \<^verbatim>\<open>random\<close> in two different states
  (its next raw number is 0 in one run and 1 in the other): the gap offset of the first
  pipe is 60 in one run and 61 in the other, and the first observation and reward of the
  two runs differ. The seed reaches only the generator \<open>np_random\<close> of the environment
  object, from which \<^verbatim>\<open>step\<close> never draws.
\<close>

theorem same_seed_different_episodes:
  "episode (Some 42) [0] None (const_rng 0) =
     Inr ([0, 1, 0, 1], [([3507 / 6400, 139 / 160, 7 / 200, 1], 2253 / 64000)])
   \<and> episode (Some 42) [0] None (const_rng 1) =
     Inr ([0, 1, 0, 1], [([3487 / 6400, 139 / 160, 7 / 200, 1], 2273 / 64000)])
   \<and> episode (Some 42) [0] None (const_rng 0) \<noteq> episode (Some 42) [0] None (const_rng 1)"
  by (simp add: episode_def step_eval)

section \<open>The first step with a flap\<close>

text \<open>
  Claim C4 fails as stated. After \<^verbatim>\<open>reset(seed=42)\<close> and one step with action 1 the
  velocity is \<open>-7.15\<close>, not the flap impulse \<open>-7.5\<close>: \<^verbatim>\<open>update\<close> adds gravity
  right after \<^verbatim>\<open>flap\<close> has set the velocity.
\<close>

theorem first_flap_velocity_counterexample:
  "step 1 (snd (reset (Some 42) None)) (const_rng 0) =
     Inr (\<lparr>r_obs = [3357 / 6400, 139 / 160, - (143 / 200), 1],
           r_reward = 2403 / 64000, r_terminated = False, r_truncated = False, r_score = 0\<rparr>,
          \<lparr>square = \<lparr>square_y = 6257 / 20, square_vel = - (143 / 20)\<rparr>,
           pipes = [\<lparr>pipe_x = 477, pipe_w = 60, pipe_gap_y = 60, pipe_gap_h = 170,
                     passed = False\<rparr>],
           tick = 1, pipe_speed = 3, gap_h = 170, score = 0, np_random = Some 42\<rparr>,
          const_rng 0)
   \<and> - (143 / 20) \<noteq> FLAP_STRENGTH"
  by (simp add: step_eval)

text \<open>
  Claim C4 as amended. After \<^verbatim>\<open>reset(seed=42)\<close> and one step with action 1, whatever
  the state of the generator is: the velocity is the flap impulse plus gravity
  (\<open>FLAP_STRENGTH + GRAVITY\<close>), the reward is \<open>-0.01\<close> plus the shaping term
  \<open>0.1 * (1 - |y - gap centre| / 320)\<close> of the pipe just spawned, whose gap offset
  \<open>gy\<close> lies in \<open>[60, 410]\<close>, and terminated is false.
\<close>

theorem first_flap:
  "\<exists>gy g'. 60 \<le> gy \<and> gy \<le> 410 \<and>
     step 1 (snd (reset (Some 42) npr)) g =
       Inr (\<lparr>r_obs = [((320 + (FLAP_STRENGTH + GRAVITY)) - (of_int gy + 85)) / 320, 139 / 160,
                      (FLAP_STRENGTH + GRAVITY) / 10, 1],
             r_reward = - (1 / 100)
                + (1 / 10) * (1 - \<bar>(320 + (FLAP_STRENGTH + GRAVITY)) - (of_int gy + 85)\<bar> / 320),
             r_terminated = False, r_truncated = False, r_score = 0\<rparr>,
            \<lparr>square = \<lparr>square_y = 320 + (FLAP_STRENGTH + GRAVITY),
                       square_vel = FLAP_STRENGTH + GRAVITY\<rparr>,
             pipes = [\<lparr>pipe_x = 477, pipe_w = 60, pipe_gap_y = gy, pipe_gap_h = 170,
                       passed = False\<rparr>],
             tick = 1, pipe_speed = 3, gap_h = 170, score = 0, np_random = Some 42\<rparr>,
            g')"
proof -
  have le: "(60::int) \<le> HEIGHT - 60 - GAP_START" by (simp add: consts_defs)
  from randint_range[OF le, of g] obtain gy g' where
    r: "randint 60 (HEIGHT - 60 - GAP_START) g = Inr (gy, g')" and b: "60 \<le> gy" "gy \<le> HEIGHT - 60 - GAP_START"
    by blast
  from b have b': "gy \<le> 410" by (simp add: consts_defs)
  have "step 1 (snd (reset (Some 42) npr)) g =
       Inr (\<lparr>r_obs = [((320 + (FLAP_STRENGTH + GRAVITY)) - (of_int gy + 85)) / 320, 139 / 160,
                      (FLAP_STRENGTH + GRAVITY) / 10, 1],
             r_reward = - (1 / 100)
                + (1 / 10) * (1 - \<bar>(320 + (FLAP_STRENGTH + GRAVITY)) - (of_int gy + 85)\<bar> / 320),
             r_terminated = False, r_truncated = False, r_score = 0\<rparr>,
            \<lparr>square = \<lparr>square_y = 320 + (FLAP_STRENGTH + GRAVITY),
                       square_vel = FLAP_STRENGTH + GRAVITY\<rparr>,
             pipes = [\<lparr>pipe_x = 477, pipe_w = 60, pipe_gap_y = gy, pipe_gap_h = 170,
                       passed = False\<rparr>],
             tick = 1, pipe_speed = 3, gap_h = 170, score = 0, np_random = Some 42\<rparr>,
            g')"
    using r
    by (simp add: step_def spawn_def reset_def Let_def new_Square_def Square_flap_def
        Square_update_def new_Pipe_def pipe_iter_def fires_def on_pass_def Pipe_update_def
        Pipe_off_screen_def collided_def Square_rect_def Pipe_rects_def colliderect_def
        py_int_def next_pipe_def upcoming_def proximity_reward_def gap_centre_def get_obs_def
        consts_defs)
  with b(1) b' show ?thesis by blast
qed


section \<open>The observation\<close>

text \<open>
  Claim C8. The observation has four components. When no live pipe has its trailing
  edge at or right of the square's horizontal position \<open>WIDTH div 4\<close>, it is
  \<open>(0, 1, vel / 10, (gap_h - GAP_MIN) / (GAP_START - GAP_MIN))\<close> with the ambient gap
  height. Otherwise it is computed from a live pipe \<open>p\<close> of least \<open>x\<close> among those
  pipes: \<open>((y - gap centre of p) / (HEIGHT / 2), (x + w - WIDTH div 4) / WIDTH, vel / 10,
  (gap height of p - GAP_MIN) / (GAP_START - GAP_MIN))\<close>.
\<close>

theorem get_obs_vector:
  "length (get_obs e) = 4
   \<and> ((\<forall>p\<in>set (pipes e). \<not> of_int (WIDTH div 4) \<le> pipe_x p + of_int (pipe_w p)) \<longrightarrow>
        get_obs e = [0, 1, square_vel (square e) / 10,
                     of_int (gap_h e - GAP_MIN) / of_int (GAP_START - GAP_MIN)])
   \<and> ((\<exists>p\<in>set (pipes e). of_int (WIDTH div 4) \<le> pipe_x p + of_int (pipe_w p)) \<longrightarrow>
        (\<exists>p\<in>set (pipes e).
           of_int (WIDTH div 4) \<le> pipe_x p + of_int (pipe_w p)
           \<and> (\<forall>q\<in>set (pipes e).
                 of_int (WIDTH div 4) \<le> pipe_x q + of_int (pipe_w q) \<longrightarrow> pipe_x p \<le> pipe_x q)
           \<and> get_obs e =
               [(square_y (square e) - (of_int (pipe_gap_y p) + of_int (pipe_gap_h p) / 2))
                  / (of_int HEIGHT / 2),
                (pipe_x p + of_int (pipe_w p) - of_int (WIDTH div 4)) / of_int WIDTH,
                square_vel (square e) / 10,
                of_int (pipe_gap_h p - GAP_MIN) / of_int (GAP_START - GAP_MIN)]))"
proof (cases "next_pipe (pipes e)")
  case None
  then have no: "\<forall>p\<in>set (pipes e). \<not> upcoming p" by (simp add: next_pipe_None)
  have "get_obs e = [0, 1, square_vel (square e) / 10,
                     of_int (gap_h e - GAP_MIN) / of_int (GAP_START - GAP_MIN)]"
    using None by (simp add: get_obs_def WIDTH_def)
  with no show ?thesis by (simp add: upcoming_def)
next
  case (Some p)
  note np = next_pipe_Some[OF Some]
  have g: "get_obs e =
               [(square_y (square e) - (of_int (pipe_gap_y p) + of_int (pipe_gap_h p) / 2))
                  / (of_int HEIGHT / 2),
                (pipe_x p + of_int (pipe_w p) - of_int (WIDTH div 4)) / of_int WIDTH,
                square_vel (square e) / 10,
                of_int (pipe_gap_h p - GAP_MIN) / of_int (GAP_START - GAP_MIN)]"
    using Some by (simp add: get_obs_def gap_centre_def)
  have m: "\<forall>q\<in>set (pipes e).
                 of_int (WIDTH div 4) \<le> pipe_x q + of_int (pipe_w q) \<longrightarrow> pipe_x p \<le> pipe_x q"
    using np(3) by (simp add: upcoming_def)
  have u: "of_int (WIDTH div 4) \<le> pipe_x p + of_int (pipe_w p)"
    using np(2) by (simp add: upcoming_def)
  have l: "length (get_obs e) = 4" using g by simp
  from np(1) u m g l show ?thesis by blast
qed

text \<open>The statement at the first state and at the fortieth state of the free-fall episode.\<close>

theorem get_obs_vector_witness:
  "pipes start_env = []
   \<and> get_obs start_env = [0, 1, 0, 1]
   \<and> pipes (fall_env 40) =
       [\<lparr>pipe_x = 360, pipe_w = 60, pipe_gap_y = 60, pipe_gap_h = 170, passed = False\<rparr>]
   \<and> rat_of_int (WIDTH div 4) \<le> 360 + rat_of_int 60
   \<and> get_obs (fall_env 40) = [231 / 160, 5 / 8, 7 / 5, 1]"
proof -
  have a0: "pipes start_env = []" by (simp add: start_env_def reset_def Let_def)
  have b0: "pipes (fall_env 40) =
       [\<lparr>pipe_x = 360, pipe_w = 60, pipe_gap_y = 60, pipe_gap_h = 170, passed = False\<rparr>]"
    by (simp add: fall_env_def)
  have w: "rat_of_int (WIDTH div 4) \<le> 360 + rat_of_int 60" by (simp add: WIDTH_def)
  have a: "\<forall>p\<in>set (pipes start_env). \<not> of_int (WIDTH div 4) \<le> pipe_x p + of_int (pipe_w p)"
    using a0 by simp
  have b: "\<exists>p\<in>set (pipes (fall_env 40)). of_int (WIDTH div 4) \<le> pipe_x p + of_int (pipe_w p)"
    using b0 w by simp
  from get_obs_vector[of start_env] a
  have "get_obs start_env = [0, 1, square_vel (square start_env) / 10,
                     of_int (gap_h start_env - GAP_MIN) / of_int (GAP_START - GAP_MIN)]"
    by blast
  then have c: "get_obs start_env = [0, 1, 0, 1]"
    by (simp add: start_env_def reset_def Let_def new_Square_def consts_defs)
  from get_obs_vector[of "fall_env 40"] b
  obtain p where "p \<in> set (pipes (fall_env 40))" and
    "get_obs (fall_env 40) =
               [(square_y (square (fall_env 40)) - (of_int (pipe_gap_y p) + of_int (pipe_gap_h p) / 2))
                  / (of_int HEIGHT / 2),
                (pipe_x p + of_int (pipe_w p) - of_int (WIDTH div 4)) / of_int WIDTH,
                square_vel (square (fall_env 40)) / 10,
                of_int (pipe_gap_h p - GAP_MIN) / of_int (GAP_START - GAP_MIN)]"
    by blast
  then have d: "get_obs (fall_env 40) = [231 / 160, 5 / 8, 7 / 5, 1]"
    by (simp add: fall_env_def consts_defs)
  from a0 b0 w c d show ?thesis by blast
qed

section \<open>The horizontal component of the observation\<close>

text \<open>
  Claim C10. In every state of an episode every live pipe is at or left of the right
  screen edge, and component 1 of the observation lies in \<open>[0, 1]\<close>: it is 1 when there
  is no upcoming pipe, and \<open>(x + w - WIDTH div 4) / WIDTH\<close> of the upcoming pipe
  otherwise.
\<close>

theorem horizontal_component_bounded:
  assumes "reachable e"
  shows "(\<forall>p\<in>set (pipes e). pipe_x p \<le> of_int WIDTH)
       \<and> 0 \<le> get_obs e ! 1 \<and> get_obs e ! 1 \<le> 1
       \<and> (next_pipe (pipes e) = None \<longrightarrow> get_obs e ! 1 = 1)
       \<and> (\<forall>p. next_pipe (pipes e) = Some p \<longrightarrow>
             get_obs e ! 1 = (pipe_x p + of_int (pipe_w p) - of_int (WIDTH div 4)) / of_int WIDTH)"
proof -
  from reachable_env_ok[OF assms] have ok: "list_all pipe_ok (pipes e)" by (simp add: env_ok_def)
  then have x: "\<forall>p\<in>set (pipes e). pipe_x p \<le> of_int WIDTH"
    by (simp add: list_all_iff pipe_ok_def)
  show ?thesis
  proof (cases "next_pipe (pipes e)")
    case None
    then have "get_obs e ! 1 = 1" by (simp add: get_obs_def WIDTH_def)
    with None x show ?thesis by simp
  next
    case (Some p)
    note np = next_pipe_Some[OF Some]
    from np(1) ok have pk: "pipe_ok p" by (simp add: list_all_iff)
    have v: "get_obs e ! 1 = (pipe_x p + of_int (pipe_w p) - of_int (WIDTH div 4)) / of_int WIDTH"
      using Some by (simp add: get_obs_def)
    from pk np(2) have "0 \<le> pipe_x p + of_int (pipe_w p) - of_int (WIDTH div 4)"
      and "pipe_x p + of_int (pipe_w p) - of_int (WIDTH div 4) \<le> of_int WIDTH"
      by (simp_all add: pipe_ok_def upcoming_def WIDTH_def)
    then have "0 \<le> get_obs e ! 1" "get_obs e ! 1 \<le> 1"
      using v by (simp_all add: WIDTH_def)
    with Some x v show ?thesis by simp
  qed
qed

text \<open>The statement at the fortieth state of the free-fall episode.\<close>

theorem horizontal_component_bounded_witness:
  "reachable (fall_env 40)
   \<and> pipes (fall_env 40) =
       [\<lparr>pipe_x = 360, pipe_w = 60, pipe_gap_y = 60, pipe_gap_h = 170, passed = False\<rparr>]
   \<and> (360::rat) \<le> of_int WIDTH
   \<and> 0 \<le> get_obs (fall_env 40) ! 1 \<and> get_obs (fall_env 40) ! 1 \<le> 1
   \<and> get_obs (fall_env 40) ! 1 = 5 / 8"
proof -
  have r: "reachable (fall_env 40)" by (rule reachable_fall) simp
  have b0: "pipes (fall_env 40) =
       [\<lparr>pipe_x = 360, pipe_w = 60, pipe_gap_y = 60, pipe_gap_h = 170, passed = False\<rparr>]"
    by (simp add: fall_env_def)
  have v: "get_obs (fall_env 40) ! 1 = 5 / 8"
    by (simp add: fall_env_def get_obs_def next_pipe_def upcoming_def consts_defs)
  from horizontal_component_bounded[OF r] r v b0 show ?thesis by simp
qed

section \<open>Spawning\<close>



section \<open>Scoring a passed pipe\<close>




end
